theory Spec2Isabelle
  imports Main
begin

section \<open>Strings and the Python string methods the program uses\<close>

text \<open>
  A Python \<open>str\<close> whose code points are all below 256 is modelled as the HOL \<open>string\<close>
  of these code points, a \<open>char\<close> being one code point. On such strings \<open>lower\<close> and
  \<open>strip\<close> are \<open>str.lower\<close> and \<open>str.strip\<close>: the letters with a lower-case form are
  A to Z and the capitals from U+00C0 to U+00DE, U+00D7 apart, each 32 below its
  lower-case form, and the white space is that of \<open>str.isspace\<close>, U+0085 and U+00A0
  included.
\<close>

definition upper_letters :: string where
  "upper_letters = ''ABCDEFGHIJKLMNOPQRSTUVWXYZ''
     @ [CHR 0xC0, CHR 0xC1, CHR 0xC2, CHR 0xC3, CHR 0xC4, CHR 0xC5, CHR 0xC6, CHR 0xC7, CHR 0xC8, CHR 0xC9, CHR 0xCA,
        CHR 0xCB, CHR 0xCC, CHR 0xCD, CHR 0xCE, CHR 0xCF, CHR 0xD0, CHR 0xD1, CHR 0xD2, CHR 0xD3, CHR 0xD4, CHR 0xD5,
        CHR 0xD6, CHR 0xD8, CHR 0xD9, CHR 0xDA, CHR 0xDB, CHR 0xDC, CHR 0xDD, CHR 0xDE]"

definition lower_letters :: string where
  "lower_letters = ''abcdefghijklmnopqrstuvwxyz''
     @ [CHR 0xE0, CHR 0xE1, CHR 0xE2, CHR 0xE3, CHR 0xE4, CHR 0xE5, CHR 0xE6, CHR 0xE7, CHR 0xE8, CHR 0xE9, CHR 0xEA,
        CHR 0xEB, CHR 0xEC, CHR 0xED, CHR 0xEE, CHR 0xEF, CHR 0xF0, CHR 0xF1, CHR 0xF2, CHR 0xF3, CHR 0xF4, CHR 0xF5,
        CHR 0xF6, CHR 0xF8, CHR 0xF9, CHR 0xFA, CHR 0xFB, CHR 0xFC, CHR 0xFD, CHR 0xFE]"

definition lower_char :: "char \<Rightarrow> char" where
  "lower_char c =
     (case map_of (zip upper_letters lower_letters) c of
        Some d \<Rightarrow> d
      | None \<Rightarrow> c)"

definition lower :: "string \<Rightarrow> string" where
  "lower s = map lower_char s"

definition isspace :: "char \<Rightarrow> bool" where
  "isspace c = (c \<in> set [CHR 0x09, CHR 0x0A, CHR 0x0B, CHR 0x0C, CHR 0x0D,
                           CHR 0x1C, CHR 0x1D, CHR 0x1E, CHR 0x1F, CHR 0x20,
                           CHR 0x85, CHR 0xA0])"

definition strip :: "string \<Rightarrow> string" where
  "strip s = rev (dropWhile isspace (rev (dropWhile isspace s)))"

definition startswith :: "string \<Rightarrow> string \<Rightarrow> bool" where
  "startswith s pre = (take (length pre) s = pre)"

definition endswith :: "string \<Rightarrow> string \<Rightarrow> bool" where
  "endswith s suf = (drop (length s - length suf) s = suf \<and> length suf \<le> length s)"

text \<open>\<open>s.rfind(c)\<close>: the index of the last occurrence of \<open>c\<close>, or \<open>-1\<close>.\<close>

definition rfind :: "string \<Rightarrow> char \<Rightarrow> int" where
  "rfind s c =
     (if c \<in> set s then int (length s) - 1 - int (length (takeWhile (\<lambda>d. d \<noteq> c) (rev s)))
      else - 1)"

text \<open>\<open>s[i:j]\<close> for non-negative \<open>i\<close> and \<open>j\<close>.\<close>

definition slice :: "string \<Rightarrow> int \<Rightarrow> int \<Rightarrow> string" where
  "slice s i j = drop (nat i) (take (nat j) s)"

text \<open>\<open>s.split(sep)\<close> with a one-character separator.\<close>

fun split_on :: "char \<Rightarrow> string \<Rightarrow> string list" where
  "split_on sep [] = [[]]"
| "split_on sep (c # cs) =
     (if c = sep then [] # split_on sep cs
      else (case split_on sep cs of [] \<Rightarrow> [[c]] | x # xs \<Rightarrow> (c # x) # xs))"

text \<open>\<open>sep.join(parts)\<close>.\<close>

fun join_with :: "string \<Rightarrow> string list \<Rightarrow> string" where
  "join_with sep [] = []"
| "join_with sep [x] = x"
| "join_with sep (x # y # ys) = x @ sep @ join_with sep (y # ys)"

text \<open>
  \<open>f.readlines()\<close> on a text-mode file whose whole text is \<open>s\<close>: the lines, each with
  its terminating newline kept.
\<close>

fun readlines :: "string \<Rightarrow> string list" where
  "readlines [] = []"
| "readlines (c # cs) =
     (if c = CHR ''\<newline>'' then [c] # readlines cs
      else (case readlines cs of [] \<Rightarrow> [[c]] | l # ls \<Rightarrow> (c # l) # ls))"

section \<open>Exceptions, the host and the observable effects\<close>

datatype exn =
    ValueError string
  | IOError string
  | FileNotFoundError string
  | IsADirectoryError string
  | PermissionError string
  | UnicodeDecodeError string
  | LookupError string

fun str_exn :: "exn \<Rightarrow> string" where
  "str_exn (ValueError m) = m"
| "str_exn (IOError m) = m"
| "str_exn (FileNotFoundError m) = m"
| "str_exn (IsADirectoryError m) = m"
| "str_exn (PermissionError m) = m"
| "str_exn (UnicodeDecodeError m) = m"
| "str_exn (LookupError m) = m"

fun is_UnicodeDecodeError :: "exn \<Rightarrow> bool" where
  "is_UnicodeDecodeError (UnicodeDecodeError m) = True"
| "is_UnicodeDecodeError e = False"

text \<open>
  Everything the program asks of the Python library and the operating system:
  the functions of \<open>os.path\<close>, \<open>locale.getpreferredencoding(False)\<close>, and the outcome
  of opening a file. \<open>open_read h path enc\<close> is what
  \<open>open(path, 'r', encoding=enc).read()\<close> does: the decoded text, or the exception raised.
  \<open>open_write h path\<close> is the exception raised by opening \<open>path\<close> for writing and writing
  to it, if any.
\<close>

record host =
  basename :: "string \<Rightarrow> string"
  dirname :: "string \<Rightarrow> string"
  splitext :: "string \<Rightarrow> string \<times> string"
  isabs :: "string \<Rightarrow> bool"
  join :: "string \<Rightarrow> string \<Rightarrow> string"
  normpath :: "string \<Rightarrow> string"
  normcase :: "string \<Rightarrow> string"
  abspath :: "string \<Rightarrow> string"
  expanduser :: "string \<Rightarrow> string"
  expandvars :: "string \<Rightarrow> string"
  isfile :: "string \<Rightarrow> bool"
  getpreferredencoding :: "string"
  open_read :: "string \<Rightarrow> string \<Rightarrow> exn + string"
  open_write :: "string \<Rightarrow> exn option"

text \<open>
  What a call leaves behind: the lines printed, the whole-file writes completed
  (path and text, oldest first) and the error dialogs shown (title and message).
\<close>

record world =
  stdout :: "string list"
  written :: "(string \<times> string) list"
  showerror :: "(string \<times> string) list"

definition print :: "string \<Rightarrow> world \<Rightarrow> world" where
  "print s w = w\<lparr>stdout := stdout w @ [s]\<rparr>"

text \<open>\<open>with open(path, 'w', encoding='utf-8') as out: out.write(s)\<close>.\<close>

definition write_text :: "host \<Rightarrow> string \<Rightarrow> string \<Rightarrow> world \<Rightarrow> exn + world" where
  "write_text h path s w =
     (case open_write h path of
        Some e \<Rightarrow> Inl e
      | None \<Rightarrow> Inr (w\<lparr>written := written w @ [(path, s)]\<rparr>))"

section \<open>\<open>posixpath\<close>: the functions of \<open>os.path\<close> on a POSIX host\<close>

definition posix_basename :: "string \<Rightarrow> string" where
  "posix_basename p = (let i = rfind p (CHR ''/'') + 1 in drop (nat i) p)"

definition posix_dirname :: "string \<Rightarrow> string" where
  "posix_dirname p =
     (let i = rfind p (CHR ''/'') + 1;
          head = take (nat i) p
      in if head \<noteq> [] \<and> head \<noteq> replicate (length head) (CHR ''/'')
         then rev (dropWhile (\<lambda>c. c = CHR ''/'') (rev head))
         else head)"

definition posix_splitext :: "string \<Rightarrow> string \<times> string" where
  "posix_splitext p =
     (let sepIndex = rfind p (CHR ''/'');
          dotIndex = rfind p (CHR ''.'')
      in if dotIndex > sepIndex
            \<and> list_ex (\<lambda>c. c \<noteq> CHR ''.'') (slice p (sepIndex + 1) dotIndex)
         then (take (nat dotIndex) p, drop (nat dotIndex) p)
         else (p, []))"

definition posix_isabs :: "string \<Rightarrow> bool" where
  "posix_isabs s = startswith s ''/''"

definition posix_join :: "string \<Rightarrow> string \<Rightarrow> string" where
  "posix_join a b =
     (if startswith b ''/'' then b
      else if a = [] \<or> endswith a ''/'' then a @ b
      else a @ ''/'' @ b)"

definition normpath_step :: "nat \<Rightarrow> string list \<Rightarrow> string \<Rightarrow> string list" where
  "normpath_step initial_slashes new_comps c =
     (if c = [] \<or> c = ''.'' then new_comps
      else if c \<noteq> ''..'' \<or> (initial_slashes = 0 \<and> new_comps = [])
              \<or> (new_comps \<noteq> [] \<and> last new_comps = ''..'')
      then new_comps @ [c]
      else if new_comps \<noteq> [] then butlast new_comps
      else new_comps)"

definition posix_normpath :: "string \<Rightarrow> string" where
  "posix_normpath path =
     (if path = [] then ''.''
      else
        let initial_slashes =
              (if startswith path ''//'' \<and> \<not> startswith path ''///'' then 2
               else if startswith path ''/'' then 1 else (0::nat));
            comps = foldl (normpath_step initial_slashes) [] (split_on (CHR ''/'') path);
            path' = replicate initial_slashes (CHR ''/'') @ join_with ''/'' comps
        in if path' = [] then ''.'' else path')"

definition posix_abspath :: "string \<Rightarrow> string \<Rightarrow> string" where
  "posix_abspath cwd path =
     (if \<not> posix_isabs path then posix_normpath (posix_join cwd path)
      else posix_normpath path)"

text \<open>
  \<open>expandvars\<close> with the environment \<open>environ\<close>. \<open>var_match cs\<close> is the match of
  \<open>(\w+|\{[^}]*\})\<close> at the start of \<open>cs\<close>, the text after a dollar sign: the text matched
  and the rest. A variable that is not set is left as it is, and the value of one that
  is set is not expanded again.
\<close>

definition isword :: "char \<Rightarrow> bool" where
  "isword c =
     (let n = (of_char c :: nat)
      in (48 \<le> n \<and> n \<le> 57) \<or> (65 \<le> n \<and> n \<le> 90) \<or> n = 95 \<or> (97 \<le> n \<and> n \<le> 122))"

definition var_match :: "string \<Rightarrow> (string \<times> string) option" where
  "var_match cs =
     (case cs of
        [] \<Rightarrow> None
      | c # rest \<Rightarrow>
          if isword c then Some (takeWhile isword cs, dropWhile isword cs)
          else if c = CHR ''{'' \<and> CHR ''}'' \<in> set rest
          then Some (''{'' @ takeWhile (\<lambda>d. d \<noteq> CHR ''}'') rest @ ''}'',
                     tl (dropWhile (\<lambda>d. d \<noteq> CHR ''}'') rest))
          else None)"

function posix_expandvars :: "(string \<times> string) list \<Rightarrow> string \<Rightarrow> string" where
  "posix_expandvars environ [] = []"
| "posix_expandvars environ (c # cs) =
     (if c = CHR ''$'' then
        (case var_match cs of
           None \<Rightarrow> c # posix_expandvars environ cs
         | Some (g, after) \<Rightarrow>
             (let name = (if startswith g ''{'' \<and> endswith g ''}'' then butlast (tl g) else g)
              in case map_of environ name of
                   None \<Rightarrow> c # g @ posix_expandvars environ after
                 | Some v \<Rightarrow> v @ posix_expandvars environ after))
      else c # posix_expandvars environ cs)"
  by pat_completeness auto
termination
proof -
  have shorter: "length after \<le> length cs" if m: "var_match cs = Some (g, after)"
    for cs g after
  proof (cases cs)
    case Nil
    with m show ?thesis by (simp add: var_match_def)
  next
    case (Cons c rest)
    have 1: "length (dropWhile isword cs) \<le> length cs"
      by (rule length_dropWhile_le)
    have 2: "length (tl (dropWhile (\<lambda>d. d \<noteq> CHR ''}'') rest)) \<le> length cs"
      using length_dropWhile_le [of "\<lambda>d. d \<noteq> CHR ''}''" rest] Cons by simp
    from m Cons 1 2 show ?thesis
      by (auto simp: var_match_def split: if_splits)
  qed
  show ?thesis
    by (relation "measure (\<lambda>(environ, s). length s)") (auto dest: shorter)
qed

text \<open>
  \<open>expanduser\<close> with the environment \<open>environ\<close>, the home directories \<open>passwd\<close> of the
  password database by user name, and \<open>uid_home\<close>, the home directory the database gives
  for the current user, if any.
\<close>

definition posix_expanduser :: "(string \<times> string) list \<Rightarrow> (string \<times> string) list \<Rightarrow> string option
                                 \<Rightarrow> string \<Rightarrow> string" where
  "posix_expanduser environ passwd uid_home path =
     (if \<not> startswith path ''~'' then path
      else
        let i = 1 + length (takeWhile (\<lambda>c. c \<noteq> CHR ''/'') (tl path));
            userhome =
              (if i = 1 then
                 (case map_of environ ''HOME'' of
                    Some hm \<Rightarrow> Some hm
                  | None \<Rightarrow> uid_home)
               else map_of passwd (take (i - 1) (tl path)))
        in case userhome of
             None \<Rightarrow> path
           | Some hm \<Rightarrow>
               (let r = rev (dropWhile (\<lambda>c. c = CHR ''/'') (rev hm)) @ drop i path
                in if r = [] then ''/'' else r))"

section \<open>The type classifier\<close>

definition ALLOWED_EXTS :: "string list" where
  "ALLOWED_EXTS =
     [''.txt'', ''.md'', ''.markdown'', ''.rst'', ''.html'', ''.htm'', ''.xml'', ''.csv'', ''.tsv'',
      ''.ini'', ''.cfg'', ''.conf'', ''.properties'', ''.env'',
      ''.json'', ''.yaml'', ''.yml'', ''.toml'',
      ''.py'', ''.js'', ''.jsx'', ''.ts'', ''.tsx'',
      ''.java'', ''.c'', ''.cpp'', ''.h'', ''.hpp'', ''.cs'', ''.go'', ''.rb'', ''.php'', ''.swift'', ''.kt'',
      ''.sh'', ''.bash'', ''.zsh'', ''.fish'', ''.ps1'', ''.bat'',
      ''.sql'', ''.pl'', ''.lua'', ''.r'', ''.scala'', ''.clj'', ''.groovy'', ''.dart'',
      ''.css'', ''.scss'', ''.less'']"

definition ALLOWED_NAMES :: "string list" where
  "ALLOWED_NAMES =
     [''license'', ''makefile'', ''dockerfile'',
      ''.editorconfig'', ''.gitattributes'', ''.gitignore'', ''.dockerignore'']"

definition is_allowed :: "host \<Rightarrow> string \<Rightarrow> bool" where
  "is_allowed h path =
     (let name = basename h path;
          lower_name = lower name
      in if lower_name \<in> set ALLOWED_NAMES then True
         else let ext = snd (splitext h lower_name) in ext \<in> set ALLOWED_EXTS)"

section \<open>The concatenator\<close>

text \<open>
  The loop of \<open>concatenate_file_list\<close> over the paths: \<open>output_content\<close> is the list of
  pieces collected so far. A file that cannot be read is reported on the standard output
  and the loop goes on.
\<close>

fun read_files :: "host \<Rightarrow> string list \<Rightarrow> string list \<Rightarrow> world \<Rightarrow> string list \<times> world" where
  "read_files h [] output_content w = (output_content, w)"
| "read_files h (file_path # rest) output_content w =
     (let filename = basename h file_path
      in case open_read h file_path ''utf-8'' of
           Inr text \<Rightarrow>
             read_files h rest
               (output_content
                  @ [''--- File: '' @ filename @ '' ---\<newline>\<newline>'', text, ''\<newline>\<newline>'']) w
         | Inl e \<Rightarrow>
             read_files h rest output_content
               (print (''Error reading '' @ file_path @ '': '' @ str_exn e) w))"

definition concatenate_file_list :: "host \<Rightarrow> string list \<Rightarrow> string \<Rightarrow> world \<Rightarrow> (exn + unit) \<times> world" where
  "concatenate_file_list h file_paths output_path w =
     (if file_paths = [] then (Inl (ValueError ''No files to concatenate.''), w)
      else
        case read_files h file_paths [] w of
          (output_content, w1) \<Rightarrow>
            (case write_text h output_path (concat output_content) w1 of
               Inr w2 \<Rightarrow> (Inr (), print (''Concatenated file saved to: '' @ output_path) w2)
             | Inl e \<Rightarrow>
                 (Inl (IOError (''Error writing to '' @ output_path @ '': '' @ str_exn e)), w1)))"

section \<open>The list-file importer\<close>

record report =
  added_paths :: "string list"
  already_present :: "string list"
  not_found :: "string list"
  skipped_not_allowed :: "string list"

definition empty_report :: report where
  "empty_report = \<lparr> added_paths = [], already_present = [], not_found = [], skipped_not_allowed = [] \<rparr>"

text \<open>The local function \<open>norm\<close> of \<open>parse_file_list\<close>.\<close>

definition norm :: "host \<Rightarrow> string \<Rightarrow> string" where
  "norm h p = normcase h (normpath h (abspath h p))"

text \<open>
  The loop over the encodings. \<open>lines\<close> and \<open>last_err\<close> are the variables of the same
  name; an exception that is not a \<open>UnicodeDecodeError\<close> is raised again.
\<close>

fun read_lines :: "host \<Rightarrow> string \<Rightarrow> string list \<Rightarrow> string list \<Rightarrow> exn option
                    \<Rightarrow> exn + (string list \<times> exn option)" where
  "read_lines h list_path [] lines last_err = Inr (lines, last_err)"
| "read_lines h list_path (enc # encodings) lines last_err =
     (case open_read h list_path enc of
        Inr text \<Rightarrow> Inr (readlines text, None)
      | Inl e \<Rightarrow>
          if is_UnicodeDecodeError e then read_lines h list_path encodings lines (Some e)
          else Inl e)"

definition read_manifest :: "host \<Rightarrow> string \<Rightarrow> exn + (string list \<times> exn option)" where
  "read_manifest h list_path =
     (let preferred = (if getpreferredencoding h \<noteq> [] then getpreferredencoding h else ''cp1252'');
          encodings = [''utf-8-sig'', preferred, ''cp1252'', ''latin-1'']
      in read_lines h list_path encodings [] None)"

text \<open>
  The body of the loop over the lines, in the order of the source: trimming and the two
  silent skips (\<open>significant\<close>), quote stripping, expansion, resolution against the
  directory of the list file, and the four ways a line is recorded.
\<close>

definition significant :: "string \<Rightarrow> bool" where
  "significant raw =
     (let line = strip raw
      in if line = [] then False
         else if startswith line ''#'' \<or> startswith line '';'' then False
         else True)"

definition strip_quotes :: "string \<Rightarrow> string" where
  "strip_quotes line =
     (if (startswith line [CHR 0x22] \<and> endswith line [CHR 0x22])
          \<or> (startswith line [CHR 0x27] \<and> endswith line [CHR 0x27])
      then butlast (tl line) else line)"

definition expand :: "host \<Rightarrow> string \<Rightarrow> string" where
  "expand h line = expandvars h (expanduser h line)"

definition resolve :: "host \<Rightarrow> string \<Rightarrow> string \<Rightarrow> string" where
  "resolve h base_dir line =
     (let candidate = (if \<not> isabs h line then join h base_dir line else line)
      in abspath h (normpath h candidate))"

definition import_line :: "host \<Rightarrow> string set \<Rightarrow> string \<Rightarrow> report \<Rightarrow> string \<Rightarrow> report" where
  "import_line h existing base_dir r raw =
     (if \<not> significant raw then r
      else
        let line = expand h (strip_quotes (strip raw));
            candidate = resolve h base_dir line
        in if \<not> is_allowed h candidate
           then r\<lparr>skipped_not_allowed := skipped_not_allowed r @ [line]\<rparr>
           else if \<not> isfile h candidate
           then r\<lparr>not_found := not_found r @ [line]\<rparr>
           else
             let n = norm h candidate
             in if n \<in> existing \<or> list_ex (\<lambda>p. norm h p = n) (added_paths r)
                then r\<lparr>already_present := already_present r @ [candidate]\<rparr>
                else r\<lparr>added_paths := added_paths r @ [candidate]\<rparr>)"

text \<open>The loop \<open>for raw in lines\<close>, started with the four lists empty.\<close>

definition import_lines :: "host \<Rightarrow> string set \<Rightarrow> string \<Rightarrow> string list \<Rightarrow> report" where
  "import_lines h existing base_dir lines = foldl (import_line h existing base_dir) empty_report lines"

definition parse_file_list :: "host \<Rightarrow> string list \<Rightarrow> string \<Rightarrow> world \<Rightarrow> (exn + report) \<times> world" where
  "parse_file_list h selected_files list_path w =
     (let existing = set (map (norm h) selected_files);
          base_dir = dirname h list_path
      in case read_manifest h list_path of
           Inl e \<Rightarrow> (Inl e, w)
         | Inr (lines, last_err) \<Rightarrow>
             (case last_err of
                Some e \<Rightarrow>
                  if lines = []
                  then (Inr empty_report,
                        w\<lparr>showerror := showerror w @
                           [(''Error'',
                             ''Could not decode list file using common encodings. Last error: ''
                               @ str_exn e)]\<rparr>)
                  else (Inr (import_lines h existing base_dir lines), w)
              | None \<Rightarrow> (Inr (import_lines h existing base_dir lines), w)))"

section \<open>Natural sorting\<close>














section \<open>Sample hosts\<close>

text \<open>
  A POSIX host with current directory \<open>cwd\<close>, an empty environment and an empty password
  database (so \<open>expanduser\<close> and \<open>expandvars\<close> return their argument), whose readable
  regular files are the paths of \<open>files\<close>, each with its ASCII text, and where every
  path can be written.
\<close>

definition posix_host :: "string \<Rightarrow> (string \<times> string) list \<Rightarrow> host" where
  "posix_host cwd files =
     \<lparr> basename = posix_basename,
       dirname = posix_dirname,
       splitext = posix_splitext,
       isabs = posix_isabs,
       join = posix_join,
       normpath = posix_normpath,
       normcase = (\<lambda>p. p),
       abspath = posix_abspath cwd,
       expanduser = (\<lambda>p. p),
       expandvars = (\<lambda>p. p),
       isfile = (\<lambda>p. map_of files p \<noteq> None),
       getpreferredencoding = ''UTF-8'',
       open_read = (\<lambda>p enc. case map_of files p of
                       Some t \<Rightarrow> Inr t
                     | None \<Rightarrow> Inl (FileNotFoundError
                         (''[Errno 2] No such file or directory: '' @ [CHR 0x27] @ p @ [CHR 0x27]))),
       open_write = (\<lambda>p. None) \<rparr>"

definition world0 :: world where
  "world0 = \<lparr> stdout = [], written = [], showerror = [] \<rparr>"

text \<open>
  A list file of three lines after a comment and a blank line: a file that exists, one
  that does not, and one of a type that is not allowed.
\<close>

definition sample_host :: host where
  "sample_host = posix_host ''/''
     [(''/lists/a.txt'', ''A''),
      (''/lists/files.lst'', ''# files\<newline>\<newline>a.txt\<newline>missing.txt\<newline>image.png\<newline>'')]"

text \<open>
  A POSIX host whose environment sets \<open>HOME\<close> and \<open>DOCS\<close>, with one text file beside a
  list file of nine lines: a line of one no-break space, a comment after a no-break
  space, \<open>"image.png"\<close> and \<open>'missing.txt'\<close> in quotes, a path under the home directory,
  a path under \<open>$DOCS\<close>, the name of the text file between a no-break space and a
  next-line character, a pair of quotes with nothing between them, and the name of the
  text file once more.
\<close>

definition manifest_lines :: "string list" where
  "manifest_lines =
     [[CHR 0xA0] @ ''\<newline>'',
      [CHR 0xA0] @ ''# note\<newline>'',
      [CHR 0x22] @ ''image.png'' @ [CHR 0x22] @ ''\<newline>'',
      [CHR 0x27] @ ''missing.txt'' @ [CHR 0x27] @ ''\<newline>'',
      ''~/notes.png\<newline>'',
      ''$DOCS/missing.md\<newline>'',
      [CHR 0xA0] @ ''a.txt'' @ [CHR 0x85] @ ''\<newline>'',
      [CHR 0x22, CHR 0x22] @ ''\<newline>'',
      ''a.txt\<newline>'']"

definition manifest_host :: host where
  "manifest_host =
     (posix_host ''/'' [(''/lists/a.txt'', ''A''), (''/lists/files.lst'', concat manifest_lines)])
       \<lparr> expanduser :=
           posix_expanduser [(''HOME'', ''/home/u''), (''DOCS'', ''/srv/docs'')] [] None,
         expandvars :=
           posix_expandvars [(''HOME'', ''/home/u''), (''DOCS'', ''/srv/docs'')] \<rparr>"

section \<open>What the specification says of the concatenator's output\<close>

text \<open>
  The part of the output that one path accounts for, in the words of the specification:
  for a file that is read, the header line \<open>--- File: <name> ---\<close>, a blank line, the
  file's text and two newlines; nothing for a file that cannot be read.
\<close>

definition spec_section :: "host \<Rightarrow> string \<Rightarrow> string" where
  "spec_section h p =
     (case open_read h p ''utf-8'' of
        Inr text \<Rightarrow> ''--- File: '' @ basename h p @ '' ---'' @ ''\<newline>'' @ ''\<newline>'' @ text
                      @ ''\<newline>\<newline>''
      | Inl e \<Rightarrow> [])"

text \<open>The report printed for one path: a line for a file that cannot be read.\<close>

definition spec_report :: "host \<Rightarrow> string \<Rightarrow> string list" where
  "spec_report h p =
     (case open_read h p ''utf-8'' of
        Inr text \<Rightarrow> []
      | Inl e \<Rightarrow> [''Error reading '' @ p @ '': '' @ str_exn e])"

section \<open>Notions used to state the properties of the importer\<close>

text \<open>
  The value of the variable \<open>line\<close> when a line is recorded, and the value of
  \<open>candidate\<close> for it.
\<close>

definition line_text :: "host \<Rightarrow> string \<Rightarrow> string" where
  "line_text h raw = expand h (strip_quotes (strip raw))"

definition candidate_of :: "host \<Rightarrow> string \<Rightarrow> string \<Rightarrow> string" where
  "candidate_of h base_dir raw = resolve h base_dir (line_text h raw)"

text \<open>A line that names an existing file of an allowed type.\<close>

definition accepted :: "host \<Rightarrow> string \<Rightarrow> string \<Rightarrow> bool" where
  "accepted h base_dir raw =
     (significant raw \<and> is_allowed h (candidate_of h base_dir raw)
      \<and> isfile h (candidate_of h base_dir raw))"

text \<open>
  \<open>recorded txt path r r'\<close>: one of the four sequences of \<open>r'\<close> is that of \<open>r\<close> with one
  entry appended, the path \<open>path\<close> for \<open>added_paths\<close> and \<open>already_present\<close>, the text
  \<open>txt\<close> for \<open>not_found\<close> and \<open>skipped_not_allowed\<close>, and the three others are those
  of \<open>r\<close>.
\<close>

definition recorded :: "string \<Rightarrow> string \<Rightarrow> report \<Rightarrow> report \<Rightarrow> bool" where
  "recorded txt path r r' =
     ((added_paths r' = added_paths r @ [path] \<and> already_present r' = already_present r
         \<and> not_found r' = not_found r \<and> skipped_not_allowed r' = skipped_not_allowed r)
      \<or> (added_paths r' = added_paths r \<and> already_present r' = already_present r @ [path]
         \<and> not_found r' = not_found r \<and> skipped_not_allowed r' = skipped_not_allowed r)
      \<or> (added_paths r' = added_paths r \<and> already_present r' = already_present r
         \<and> not_found r' = not_found r @ [txt] \<and> skipped_not_allowed r' = skipped_not_allowed r)
      \<or> (added_paths r' = added_paths r \<and> already_present r' = already_present r
         \<and> not_found r' = not_found r \<and> skipped_not_allowed r' = skipped_not_allowed r @ [txt]))"

text \<open>The number of entries of a report, the four sequences together.\<close>

definition entries :: "report \<Rightarrow> nat" where
  "entries r = length (added_paths r) + length (already_present r) + length (not_found r)
                 + length (skipped_not_allowed r)"

section \<open>Properties of the type classifier\<close>

lemma lower_ascii_examples:
  "lower ''LICENSE'' = ''license''" "lower ''makefile'' = ''makefile''"
  "lower ''notes.MD'' = ''notes.md''" "lower ''image.png'' = ''image.png''"
  "lower ''archive.tar.gz'' = ''archive.tar.gz''"
  by (simp_all add: lower_def lower_char_def upper_letters_def lower_letters_def)

lemma posix_basename_plain:
  "CHR ''/'' \<notin> set p \<Longrightarrow> posix_basename p = p"
  by (simp add: posix_basename_def rfind_def)

lemma posix_splitext_examples:
  "posix_splitext ''notes.md'' = (''notes'', ''.md'')"
  "posix_splitext ''image.png'' = (''image'', ''.png'')"
  "posix_splitext ''archive.tar.gz'' = (''archive.tar'', ''.gz'')"
  by (simp_all add: posix_splitext_def rfind_def slice_def)

text \<open>
  Claim C9. On a POSIX host the classifier accepts \<open>LICENSE\<close>, \<open>makefile\<close> and
  \<open>notes.MD\<close> and rejects \<open>image.png\<close> and \<open>archive.tar.gz\<close>; for the last name the
  extension examined is the final suffix \<open>.gz\<close>, which is not in the allow-list.
\<close>

theorem is_allowed_examples:
  "is_allowed (posix_host cwd files) ''LICENSE''
   \<and> is_allowed (posix_host cwd files) ''makefile''
   \<and> is_allowed (posix_host cwd files) ''notes.MD''
   \<and> \<not> is_allowed (posix_host cwd files) ''image.png''
   \<and> \<not> is_allowed (posix_host cwd files) ''archive.tar.gz''
   \<and> snd (splitext (posix_host cwd files) (lower ''archive.tar.gz'')) = ''.gz''
   \<and> ''.gz'' \<notin> set ALLOWED_EXTS"
  by (simp add: is_allowed_def posix_host_def posix_basename_plain lower_ascii_examples
      posix_splitext_examples ALLOWED_NAMES_def ALLOWED_EXTS_def)

section \<open>Properties of the concatenator\<close>

lemma read_files_content:
  "concat (fst (read_files h ps oc w)) = concat oc @ concat (map (spec_section h) ps)"
  by (induction ps arbitrary: oc w) (simp_all add: spec_section_def Let_def split: sum.splits)

lemma read_files_world:
  "snd (read_files h ps oc w) = w\<lparr>stdout := stdout w @ concat (map (spec_report h) ps)\<rparr>"
  by (induction ps arbitrary: oc w) (simp_all add: spec_report_def print_def Let_def split: sum.splits)

lemma concatenate_file_list_ok:
  assumes "file_paths \<noteq> []" and "open_write h output_path = None"
  shows "concatenate_file_list h file_paths output_path w =
           (Inr (),
            w\<lparr>stdout := stdout w @ concat (map (spec_report h) file_paths)
                          @ [''Concatenated file saved to: '' @ output_path],
              written := written w @ [(output_path, concat (map (spec_section h) file_paths))]\<rparr>)"
proof -
  obtain oc w1 where r: "read_files h file_paths [] w = (oc, w1)"
    by (cases "read_files h file_paths [] w")
  have c: "concat oc = concat (map (spec_section h) file_paths)"
    using read_files_content [of h file_paths "[]" w] r by simp
  have w1: "w1 = w\<lparr>stdout := stdout w @ concat (map (spec_report h) file_paths)\<rparr>"
    using read_files_world [of h file_paths "[]" w] r by simp
  show ?thesis
    using assms by (simp add: concatenate_file_list_def r c w1 write_text_def print_def)
qed


lemma posix_basename_examples:
  "posix_basename ''/docs/a.txt'' = ''a.txt''" "posix_basename ''/docs/b.txt'' = ''b.txt''"
  "posix_basename ''/docs/c.md'' = ''c.md''"
  by (simp_all add: posix_basename_def rfind_def)

text \<open>
  Claim C1. When the list of paths is not empty and the output can be written,
  \<open>concatenate_file_list\<close> returns normally and completes exactly one write, to the
  output path: the sections of the files that were read, in the order of the list, each
  being the header line \<open>--- File: <basename> ---\<close>, a blank line, the text of the
  file and two newlines.
\<close>

theorem concatenate_file_list_output:
  assumes "file_paths \<noteq> []" and "open_write h output_path = None"
  shows "fst (concatenate_file_list h file_paths output_path w) = Inr ()
         \<and> written (snd (concatenate_file_list h file_paths output_path w)) =
             written w @ [(output_path, concat (map (spec_section h) file_paths))]"
  using concatenate_file_list_ok [OF assms, of w] by simp

text \<open>
  The example of the specification: three files holding \<open>A\<close>, \<open>B\<close> and \<open>C\<close>.
\<close>

theorem concatenate_file_list_output_witness:
  "fst (concatenate_file_list
          (posix_host ''/'' [(''/docs/a.txt'', ''A''), (''/docs/b.txt'', ''B''), (''/docs/c.md'', ''C'')])
          [''/docs/a.txt'', ''/docs/b.txt'', ''/docs/c.md''] ''out.txt'' world0) = Inr ()
   \<and> written (snd (concatenate_file_list
          (posix_host ''/'' [(''/docs/a.txt'', ''A''), (''/docs/b.txt'', ''B''), (''/docs/c.md'', ''C'')])
          [''/docs/a.txt'', ''/docs/b.txt'', ''/docs/c.md''] ''out.txt'' world0)) =
       [(''out.txt'',
         ''--- File: a.txt ---\<newline>\<newline>A\<newline>\<newline>--- File: b.txt ---\<newline>\<newline>B\<newline>\<newline>--- File: c.md ---\<newline>\<newline>C\<newline>\<newline>'')]"
proof -
  let ?h = "posix_host ''/'' [(''/docs/a.txt'', ''A''), (''/docs/b.txt'', ''B''), (''/docs/c.md'', ''C'')]"
  have ne: "[''/docs/a.txt'', ''/docs/b.txt'', ''/docs/c.md''] \<noteq> []" by simp
  have wr: "open_write ?h ''out.txt'' = None" by (simp add: posix_host_def)
  show ?thesis
    using concatenate_file_list_output [OF ne wr, of world0]
    by (simp add: spec_section_def posix_host_def posix_basename_examples world0_def)
qed

text \<open>
  Claim C7. With an empty list of paths \<open>concatenate_file_list\<close> raises
  \<open>ValueError("No files to concatenate.")\<close> and leaves everything as it was: nothing is
  written and nothing is printed.
\<close>

theorem concatenate_file_list_empty:
  "concatenate_file_list h [] output_path w = (Inl (ValueError ''No files to concatenate.''), w)"
  by (simp add: concatenate_file_list_def)





section \<open>Properties of the list-file importer\<close>

lemma import_lines_snoc:
  "import_lines h ex bd (ls @ [raw]) = import_line h ex bd (import_lines h ex bd ls) raw"
  by (simp add: import_lines_def)

lemma import_line_insignificant:
  "\<not> significant raw \<Longrightarrow> import_line h ex bd r raw = r"
  by (simp add: import_line_def)

lemma import_line_significant:
  "significant raw \<Longrightarrow>
     recorded (line_text h raw) (candidate_of h bd raw) r (import_line h ex bd r raw)"
  by (simp add: import_line_def recorded_def line_text_def candidate_of_def Let_def)

lemma import_line_entries:
  "entries (import_line h ex bd r raw) = entries r + (if significant raw then 1 else 0)"
  by (simp add: import_line_def entries_def Let_def)

lemma foldl_import_line_entries:
  "entries (foldl (import_line h ex bd) r ls) = entries r + length (filter significant ls)"
  by (induction ls arbitrary: r) (simp_all add: import_line_entries)

lemma foldl_import_line_skipped:
  "skipped_not_allowed (foldl (import_line h ex bd) r ls) =
     skipped_not_allowed r @ map (line_text h)
       (filter (\<lambda>raw. significant raw \<and> \<not> is_allowed h (candidate_of h bd raw)) ls)"
  by (induction ls arbitrary: r) (simp_all add: import_line_def Let_def line_text_def candidate_of_def)

lemma foldl_import_line_not_found:
  "not_found (foldl (import_line h ex bd) r ls) =
     not_found r @ map (line_text h)
       (filter (\<lambda>raw. significant raw \<and> is_allowed h (candidate_of h bd raw)
                       \<and> \<not> isfile h (candidate_of h bd raw)) ls)"
  by (induction ls arbitrary: r) (simp_all add: import_line_def Let_def line_text_def candidate_of_def)

lemma parse_file_list_report:
  assumes "fst (parse_file_list h sel lp w) = Inr r"
  shows "\<exists>lines last_err. read_manifest h lp = Inr (lines, last_err)
           \<and> r = import_lines h (set (map (norm h) sel)) (dirname h lp) lines"
  using assms
  by (auto simp: parse_file_list_def Let_def import_lines_def split: sum.splits option.splits if_splits prod.splits)

lemma list_ex_eq_image:
  "list_ex (\<lambda>p. f p = n) xs = (n \<in> set (map f xs))"
  by (induction xs) auto

lemma import_line_added_cases:
  "added_paths (import_line h ex bd r raw) =
     (if accepted h bd raw \<and> norm h (candidate_of h bd raw) \<notin> ex
         \<and> norm h (candidate_of h bd raw) \<notin> set (map (norm h) (added_paths r))
      then added_paths r @ [candidate_of h bd raw] else added_paths r)"
  by (simp add: import_line_def Let_def accepted_def candidate_of_def line_text_def list_ex_eq_image)

lemma import_line_already_cases:
  "already_present (import_line h ex bd r raw) =
     (if accepted h bd raw \<and> (norm h (candidate_of h bd raw) \<in> ex
         \<or> norm h (candidate_of h bd raw) \<in> set (map (norm h) (added_paths r)))
      then already_present r @ [candidate_of h bd raw] else already_present r)"
  by (simp add: import_line_def Let_def accepted_def candidate_of_def line_text_def list_ex_eq_image)

lemma foldl_import_line_no_duplicate:
  "distinct (map (norm h) (added_paths r)) \<Longrightarrow> set (map (norm h) (added_paths r)) \<inter> ex = {}
   \<Longrightarrow> distinct (map (norm h) (added_paths (foldl (import_line h ex bd) r ls)))
       \<and> set (map (norm h) (added_paths (foldl (import_line h ex bd) r ls))) \<inter> ex = {}"
proof (induction ls arbitrary: r)
  case Nil
  then show ?case by simp
next
  case (Cons raw ls)
  have "distinct (map (norm h) (added_paths (import_line h ex bd r raw)))"
    using Cons.prems(1) by (simp add: import_line_added_cases)
  moreover have "set (map (norm h) (added_paths (import_line h ex bd r raw))) \<inter> ex = {}"
    using Cons.prems(2) by (simp add: import_line_added_cases)
  ultimately show ?case using Cons.IH by simp
qed

lemma foldl_import_line_seen:
  "set (map (norm h) (added_paths r)) \<subseteq> set (map (norm h) (added_paths (foldl (import_line h ex bd) r ls)))
   \<and> (\<forall>raw \<in> set ls. accepted h bd raw \<longrightarrow>
        norm h (candidate_of h bd raw)
          \<in> ex \<union> set (map (norm h) (added_paths (foldl (import_line h ex bd) r ls))))"
proof (induction ls arbitrary: r)
  case Nil
  then show ?case by simp
next
  case (Cons raw ls)
  let ?r = "import_line h ex bd r raw"
  have mono: "set (map (norm h) (added_paths r)) \<subseteq> set (map (norm h) (added_paths ?r))"
    by (auto simp: import_line_added_cases)
  have here: "accepted h bd raw \<Longrightarrow> norm h (candidate_of h bd raw) \<in> ex \<union> set (map (norm h) (added_paths ?r))"
    by (auto simp: import_line_added_cases)
  have ih1: "set (map (norm h) (added_paths ?r))
               \<subseteq> set (map (norm h) (added_paths (foldl (import_line h ex bd) ?r ls)))"
    and ih2: "\<forall>x \<in> set ls. accepted h bd x \<longrightarrow>
        norm h (candidate_of h bd x) \<in> ex \<union> set (map (norm h) (added_paths (foldl (import_line h ex bd) ?r ls)))"
    using Cons.IH [of ?r] by simp_all
  have "set (map (norm h) (added_paths r))
          \<subseteq> set (map (norm h) (added_paths (foldl (import_line h ex bd) r (raw # ls))))"
    using mono ih1 by simp
  moreover have "accepted h bd x \<longrightarrow>
        norm h (candidate_of h bd x)
          \<in> ex \<union> set (map (norm h) (added_paths (foldl (import_line h ex bd) r (raw # ls))))"
    if "x \<in> set (raw # ls)" for x
  proof (cases "x = raw")
    case True
    then show ?thesis using here ih1 by auto
  next
    case False
    then show ?thesis using that ih2 by simp
  qed
  ultimately show ?case by blast
qed

lemma foldl_import_line_all_seen:
  assumes "\<And>raw. raw \<in> set ls \<Longrightarrow> accepted h bd raw \<Longrightarrow> norm h (candidate_of h bd raw) \<in> ex"
  shows "added_paths (foldl (import_line h ex bd) r ls) = added_paths r
         \<and> already_present (foldl (import_line h ex bd) r ls) =
             already_present r @ map (candidate_of h bd) (filter (accepted h bd) ls)"
  using assms
proof (induction ls arbitrary: r)
  case Nil
  then show ?case by simp
next
  case (Cons raw ls)
  let ?r = "import_line h ex bd r raw"
  have a: "added_paths ?r = added_paths r"
    using Cons.prems [of raw] by (auto simp: import_line_added_cases)
  have b: "already_present ?r = already_present r @ (if accepted h bd raw then [candidate_of h bd raw] else [])"
    using Cons.prems [of raw] by (auto simp: import_line_already_cases)
  have "added_paths (foldl (import_line h ex bd) ?r ls) = added_paths ?r
         \<and> already_present (foldl (import_line h ex bd) ?r ls) =
             already_present ?r @ map (candidate_of h bd) (filter (accepted h bd) ls)"
    using Cons.prems by (intro Cons.IH) simp_all
  then show ?case by (simp add: a b)
qed

lemma foldl_import_line_accepted_count:
  "length (added_paths (foldl (import_line h ex bd) r ls))
     + length (already_present (foldl (import_line h ex bd) r ls)) =
   length (added_paths r) + length (already_present r) + length (filter (accepted h bd) ls)"
  by (induction ls arbitrary: r) (simp_all add: import_line_added_cases import_line_already_cases)

lemma foldl_import_line_added_subset:
  "set (added_paths (foldl (import_line h ex bd) r ls))
     \<subseteq> set (added_paths r) \<union> set (map (candidate_of h bd) (filter (accepted h bd) ls))"
proof (induction ls arbitrary: r)
  case Nil
  then show ?case by simp
next
  case (Cons raw ls)
  have "set (added_paths (import_line h ex bd r raw))
          \<subseteq> set (added_paths r) \<union> (if accepted h bd raw then {candidate_of h bd raw} else {})"
    by (auto simp: import_line_added_cases)
  with Cons.IH [of "import_line h ex bd r raw"] show ?case by (simp only: foldl_Cons) auto
qed

text \<open>
  The statement of the specification for the two sequences of line texts fails on the
  list file of \<open>manifest_host\<close>: what is recorded for the quoted lines is \<open>image.png\<close>
  and \<open>missing.txt\<close>, without their quotes, and what is recorded for \<open>~/notes.png\<close> and
  \<open>$DOCS/missing.md\<close> is the expanded text; none of the four trimmed lines is in the
  sequence where its line is recorded.
\<close>

theorem parse_file_list_recorded_text_counterexample:
  "read_manifest manifest_host ''/lists/files.lst'' = Inr (manifest_lines, None)
   \<and> fst (parse_file_list manifest_host [] ''/lists/files.lst'' world0) =
       Inr \<lparr>added_paths = [''/lists/a.txt''], already_present = [''/lists/a.txt''],
            not_found = [''missing.txt'', ''/srv/docs/missing.md''],
            skipped_not_allowed = [''image.png'', ''/home/u/notes.png'', []]\<rparr>
   \<and> map strip manifest_lines =
       [[], ''# note'', [CHR 0x22] @ ''image.png'' @ [CHR 0x22],
        [CHR 0x27] @ ''missing.txt'' @ [CHR 0x27], ''~/notes.png'', ''$DOCS/missing.md'',
        ''a.txt'', [CHR 0x22, CHR 0x22], ''a.txt'']
   \<and> [CHR 0x22] @ ''image.png'' @ [CHR 0x22] \<notin> set [''image.png'', ''/home/u/notes.png'', []]
   \<and> ''~/notes.png'' \<notin> set [''image.png'', ''/home/u/notes.png'', []]
   \<and> [CHR 0x27] @ ''missing.txt'' @ [CHR 0x27] \<notin> set [''missing.txt'', ''/srv/docs/missing.md'']
   \<and> ''$DOCS/missing.md'' \<notin> set [''missing.txt'', ''/srv/docs/missing.md'']"
  by code_simp

text \<open>
  Claim C2, amended. The text recorded in \<open>skipped_not_allowed\<close> and in \<open>not_found\<close>
  is the trimmed line after the surrounding quotes are stripped and after the expansion
  of the home directory and of the environment variables; it is the text before the
  resolution against the directory of the list file. The two sequences hold these texts
  for the lines rejected by the classifier, respectively for the lines accepted by it
  that name no existing file, in the order of the list file.
\<close>

theorem parse_file_list_records_expanded_line:
  assumes "fst (parse_file_list h selected_files list_path w) = Inr r"
    and "read_manifest h list_path = Inr (lines, last_err)"
  shows "skipped_not_allowed r =
           map (\<lambda>raw. expand h (strip_quotes (strip raw)))
             (filter (\<lambda>raw. significant raw
                 \<and> \<not> is_allowed h (candidate_of h (dirname h list_path) raw)) lines)
         \<and> not_found r =
           map (\<lambda>raw. expand h (strip_quotes (strip raw)))
             (filter (\<lambda>raw. significant raw
                 \<and> is_allowed h (candidate_of h (dirname h list_path) raw)
                 \<and> \<not> isfile h (candidate_of h (dirname h list_path) raw)) lines)"
proof -
  obtain ls le where m: "read_manifest h list_path = Inr (ls, le)"
    and r: "r = import_lines h (set (map (norm h) selected_files)) (dirname h list_path) ls"
    using parse_file_list_report [OF assms(1)] by blast
  from m assms(2) have "ls = lines" by simp
  moreover have "line_text h = (\<lambda>raw. expand h (strip_quotes (strip raw)))"
    by (rule ext) (simp add: line_text_def)
  ultimately show ?thesis
    using r foldl_import_line_skipped [of h _ _ empty_report lines]
      foldl_import_line_not_found [of h _ _ empty_report lines]
    by (simp add: import_lines_def empty_report_def)
qed

theorem parse_file_list_records_expanded_line_witness:
  "fst (parse_file_list manifest_host [] ''/lists/files.lst'' world0) =
     Inr \<lparr>added_paths = [''/lists/a.txt''], already_present = [''/lists/a.txt''],
          not_found = [''missing.txt'', ''/srv/docs/missing.md''],
          skipped_not_allowed = [''image.png'', ''/home/u/notes.png'', []]\<rparr>
   \<and> read_manifest manifest_host ''/lists/files.lst'' = Inr (manifest_lines, None)
   \<and> [''image.png'', ''/home/u/notes.png'', []] =
       map (\<lambda>raw. expand manifest_host (strip_quotes (strip raw)))
         [[CHR 0x22] @ ''image.png'' @ [CHR 0x22] @ ''\<newline>'', ''~/notes.png\<newline>'',
          [CHR 0x22, CHR 0x22] @ ''\<newline>'']
   \<and> [''missing.txt'', ''/srv/docs/missing.md''] =
       map (\<lambda>raw. expand manifest_host (strip_quotes (strip raw)))
         [[CHR 0x27] @ ''missing.txt'' @ [CHR 0x27] @ ''\<newline>'', ''$DOCS/missing.md\<newline>'']"
proof -
  let ?bd = "dirname manifest_host ''/lists/files.lst''"
  let ?R = "\<lparr>added_paths = [''/lists/a.txt''], already_present = [''/lists/a.txt''],
          not_found = [''missing.txt'', ''/srv/docs/missing.md''],
          skipped_not_allowed = [''image.png'', ''/home/u/notes.png'', []]\<rparr>"
  have p: "fst (parse_file_list manifest_host [] ''/lists/files.lst'' world0) = Inr ?R"
    by code_simp
  have m: "read_manifest manifest_host ''/lists/files.lst'' = Inr (manifest_lines, None)"
    by code_simp
  have f1: "filter (\<lambda>raw. significant raw
                 \<and> \<not> is_allowed manifest_host (candidate_of manifest_host ?bd raw)) manifest_lines =
            [[CHR 0x22] @ ''image.png'' @ [CHR 0x22] @ ''\<newline>'', ''~/notes.png\<newline>'',
             [CHR 0x22, CHR 0x22] @ ''\<newline>'']"
    by code_simp
  have f2: "filter (\<lambda>raw. significant raw
                 \<and> is_allowed manifest_host (candidate_of manifest_host ?bd raw)
                 \<and> \<not> isfile manifest_host (candidate_of manifest_host ?bd raw)) manifest_lines =
            [[CHR 0x27] @ ''missing.txt'' @ [CHR 0x27] @ ''\<newline>'', ''$DOCS/missing.md\<newline>'']"
    by code_simp
  have "skipped_not_allowed ?R =
       map (\<lambda>raw. expand manifest_host (strip_quotes (strip raw)))
         [[CHR 0x22] @ ''image.png'' @ [CHR 0x22] @ ''\<newline>'', ''~/notes.png\<newline>'',
          [CHR 0x22, CHR 0x22] @ ''\<newline>'']
     \<and> not_found ?R =
       map (\<lambda>raw. expand manifest_host (strip_quotes (strip raw)))
         [[CHR 0x27] @ ''missing.txt'' @ [CHR 0x27] @ ''\<newline>'', ''$DOCS/missing.md\<newline>'']"
    using parse_file_list_records_expanded_line [OF p m] unfolding f1 f2 .
  then have "[''image.png'', ''/home/u/notes.png'', []] =
       map (\<lambda>raw. expand manifest_host (strip_quotes (strip raw)))
         [[CHR 0x22] @ ''image.png'' @ [CHR 0x22] @ ''\<newline>'', ''~/notes.png\<newline>'',
          [CHR 0x22, CHR 0x22] @ ''\<newline>'']
     \<and> [''missing.txt'', ''/srv/docs/missing.md''] =
       map (\<lambda>raw. expand manifest_host (strip_quotes (strip raw)))
         [[CHR 0x27] @ ''missing.txt'' @ [CHR 0x27] @ ''\<newline>'', ''$DOCS/missing.md\<newline>'']"
    by (simp only: report.simps)
  with p m show ?thesis by blast
qed

text \<open>
  The branch of \<open>parse_file_list\<close> for a list file that no encoding decodes is taken
  only when the last read, with \<open>latin-1\<close>, raises \<open>UnicodeDecodeError\<close>. On a host where
  it never does, and \<open>latin-1\<close> decodes every sequence of bytes, the importer shows no
  dialog and leaves the world as it is.
\<close>

lemma read_manifest_last_err:
  assumes "read_manifest h list_path = Inr (ls, Some e)"
  shows "open_read h list_path ''latin-1'' = Inl e \<and> is_UnicodeDecodeError e"
  using assms unfolding read_manifest_def Let_def
  by (auto split: sum.splits if_splits)

lemma parse_file_list_no_dialog:
  assumes "\<And>m. open_read h list_path ''latin-1'' \<noteq> Inl (UnicodeDecodeError m)"
  shows "snd (parse_file_list h selected_files list_path w) = w"
proof -
  have "read_manifest h list_path \<noteq> Inr (ls, Some e)" for ls e
  proof
    assume "read_manifest h list_path = Inr (ls, Some e)"
    then have "open_read h list_path ''latin-1'' = Inl e \<and> is_UnicodeDecodeError e"
      by (rule read_manifest_last_err)
    then show False using assms by (cases e) auto
  qed
  then show ?thesis
    by (auto simp: parse_file_list_def Let_def split: sum.splits option.splits prod.splits)
qed

text \<open>
  Claim C4. When the list file is decoded, the report is that of the loop over its lines.
  Each line that is neither blank nor a comment adds exactly one entry to exactly one of
  the four sequences and leaves the three others as they are, and the entry is the
  line itself: its text, trimmed, unquoted and expanded, in \<open>not_found\<close> or
  \<open>skipped_not_allowed\<close>, or the path it resolves to, in \<open>added_paths\<close> or
  \<open>already_present\<close>. A blank line or a comment adds nothing. So the report has as many
  entries as the list file has such lines, and no such line is dropped, not even one
  that is empty once its quotes are stripped.
\<close>

theorem import_lines_one_entry_per_line:
  assumes "read_manifest h list_path = Inr (lines, None)"
  shows "fst (parse_file_list h selected_files list_path w) =
           Inr (import_lines h (set (map (norm h) selected_files)) (dirname h list_path) lines)
         \<and> entries (import_lines h (set (map (norm h) selected_files)) (dirname h list_path) lines)
             = length (filter significant lines)
         \<and> (\<forall>n < length lines.
              if significant (lines ! n)
              then recorded (line_text h (lines ! n)) (candidate_of h (dirname h list_path) (lines ! n))
                     (import_lines h (set (map (norm h) selected_files)) (dirname h list_path) (take n lines))
                     (import_lines h (set (map (norm h) selected_files)) (dirname h list_path) (take (Suc n) lines))
              else import_lines h (set (map (norm h) selected_files)) (dirname h list_path) (take (Suc n) lines)
                   = import_lines h (set (map (norm h) selected_files)) (dirname h list_path) (take n lines))"
proof -
  let ?run = "import_lines h (set (map (norm h) selected_files)) (dirname h list_path)"
  have 1: "fst (parse_file_list h selected_files list_path w) = Inr (?run lines)"
    using assms by (simp add: parse_file_list_def Let_def)
  have 2: "entries (?run lines) = length (filter significant lines)"
    using foldl_import_line_entries [of h _ _ empty_report lines]
    by (simp add: import_lines_def entries_def empty_report_def)
  have 3: "if significant (lines ! n)
           then recorded (line_text h (lines ! n)) (candidate_of h (dirname h list_path) (lines ! n))
                  (?run (take n lines)) (?run (take (Suc n) lines))
           else ?run (take (Suc n) lines) = ?run (take n lines)" if "n < length lines" for n
  proof -
    have "take (Suc n) lines = take n lines @ [lines ! n]"
      using that by (simp add: take_Suc_conv_app_nth)
    then have "?run (take (Suc n) lines) =
        import_line h (set (map (norm h) selected_files)) (dirname h list_path) (?run (take n lines)) (lines ! n)"
      by (simp add: import_lines_snoc)
    then show ?thesis
      by (simp add: import_line_insignificant import_line_significant)
  qed
  from 1 2 3 show ?thesis by blast
qed

theorem import_lines_one_entry_per_line_witness:
  "read_manifest manifest_host ''/lists/files.lst'' = Inr (manifest_lines, None)
   \<and> fst (parse_file_list manifest_host [] ''/lists/files.lst'' world0) =
       Inr \<lparr>added_paths = [''/lists/a.txt''], already_present = [''/lists/a.txt''],
            not_found = [''missing.txt'', ''/srv/docs/missing.md''],
            skipped_not_allowed = [''image.png'', ''/home/u/notes.png'', []]\<rparr>
   \<and> entries \<lparr>added_paths = [''/lists/a.txt''], already_present = [''/lists/a.txt''],
            not_found = [''missing.txt'', ''/srv/docs/missing.md''],
            skipped_not_allowed = [''image.png'', ''/home/u/notes.png'', []]\<rparr> = 7
   \<and> length (filter significant manifest_lines) = 7
   \<and> \<not> significant (manifest_lines ! 1)
   \<and> import_lines manifest_host {} ''/lists'' (take 2 manifest_lines)
       = import_lines manifest_host {} ''/lists'' (take 1 manifest_lines)
   \<and> significant (manifest_lines ! 6)
   \<and> recorded ''a.txt'' ''/lists/a.txt''
        (import_lines manifest_host {} ''/lists'' (take 6 manifest_lines))
        (import_lines manifest_host {} ''/lists'' (take 7 manifest_lines))"
proof -
  let ?R = "\<lparr>added_paths = [''/lists/a.txt''], already_present = [''/lists/a.txt''],
            not_found = [''missing.txt'', ''/srv/docs/missing.md''],
            skipped_not_allowed = [''image.png'', ''/home/u/notes.png'', []]\<rparr>"
  have m: "read_manifest manifest_host ''/lists/files.lst'' = Inr (manifest_lines, None)"
    by code_simp
  have d: "dirname manifest_host ''/lists/files.lst'' = ''/lists''"
    by code_simp
  have r: "import_lines manifest_host {} ''/lists'' manifest_lines = ?R"
    by code_simp
  have f: "length (filter significant manifest_lines) = 7"
    by code_simp
  have s1: "\<not> significant (manifest_lines ! 1)" and s6: "significant (manifest_lines ! 6)"
    by code_simp+
  have t: "line_text manifest_host (manifest_lines ! 6) = ''a.txt''"
    "candidate_of manifest_host ''/lists'' (manifest_lines ! 6) = ''/lists/a.txt''"
    by code_simp+
  have n: "length manifest_lines = 9" by code_simp
  have e0: "set (map (norm manifest_host) []) = {}" by simp
  note inst = import_lines_one_entry_per_line [OF m, of "[]" world0, unfolded d e0]
  from inst have a: "fst (parse_file_list manifest_host [] ''/lists/files.lst'' world0) = Inr ?R"
    and b: "entries ?R = 7" by (simp_all add: r f)
  from inst have all: "\<forall>n < length manifest_lines.
              if significant (manifest_lines ! n)
              then recorded (line_text manifest_host (manifest_lines ! n)) (candidate_of manifest_host ''/lists'' (manifest_lines ! n))
                     (import_lines manifest_host {} ''/lists'' (take n manifest_lines))
                     (import_lines manifest_host {} ''/lists'' (take (Suc n) manifest_lines))
              else import_lines manifest_host {} ''/lists'' (take (Suc n) manifest_lines)
                   = import_lines manifest_host {} ''/lists'' (take n manifest_lines)"
    by blast
  have c1: "import_lines manifest_host {} ''/lists'' (take 2 manifest_lines)
       = import_lines manifest_host {} ''/lists'' (take 1 manifest_lines)"
    using all [rule_format, of 1] s1 n by (simp add: numeral_2_eq_2)
  have c6: "recorded ''a.txt'' ''/lists/a.txt''
        (import_lines manifest_host {} ''/lists'' (take 6 manifest_lines))
        (import_lines manifest_host {} ''/lists'' (take 7 manifest_lines))"
    using all [rule_format, of 6] s6 n t by (simp add: eval_nat_numeral)
  from m a b f s1 c1 s6 c6 show ?thesis by blast
qed

text \<open>
  Claim C6. The paths of \<open>added_paths\<close> have pairwise different \<open>norm\<close> forms, none of
  which is the \<open>norm\<close> form of a file already selected. Importing the same list file
  again, once the added paths have joined the selection, adds nothing: every path added
  the first time is now in \<open>already_present\<close>, which has one entry for each line that
  was added or already present the first time.
\<close>

theorem parse_file_list_no_duplicates:
  assumes "fst (parse_file_list h selected_files list_path w) = Inr r1"
    and "fst (parse_file_list h (selected_files @ added_paths r1) list_path w') = Inr r2"
  shows "distinct (map (norm h) (added_paths r1))
         \<and> set (map (norm h) (added_paths r1)) \<inter> set (map (norm h) selected_files) = {}
         \<and> added_paths r2 = []
         \<and> set (added_paths r1) \<subseteq> set (already_present r2)
         \<and> length (already_present r2) = length (added_paths r1) + length (already_present r1)"
proof -
  let ?ex = "set (map (norm h) selected_files)"
  let ?bd = "dirname h list_path"
  obtain ls le where m: "read_manifest h list_path = Inr (ls, le)"
    and r1: "r1 = foldl (import_line h ?ex ?bd) empty_report ls"
    using parse_file_list_report [OF assms(1)] by (auto simp: import_lines_def)
  let ?ex2 = "set (map (norm h) (selected_files @ added_paths r1))"
  obtain ls' le' where m': "read_manifest h list_path = Inr (ls', le')"
    and r2': "r2 = foldl (import_line h ?ex2 ?bd) empty_report ls'"
    using parse_file_list_report [OF assms(2)] by (auto simp: import_lines_def)
  from m m' have "ls' = ls" by simp
  with r2' have r2: "r2 = foldl (import_line h ?ex2 ?bd) empty_report ls" by simp
  have e: "added_paths empty_report = []" "already_present empty_report = []"
    by (simp_all add: empty_report_def)
  have inv: "distinct (map (norm h) (added_paths r1))
      \<and> set (map (norm h) (added_paths r1)) \<inter> ?ex = {}"
    unfolding r1 by (rule foldl_import_line_no_duplicate) (simp_all add: e)
  have seen: "norm h (candidate_of h ?bd raw) \<in> ?ex2" if "raw \<in> set ls" "accepted h ?bd raw" for raw
    using foldl_import_line_seen [of h empty_report ?ex ?bd ls] that unfolding r1 [symmetric] by auto
  have again: "added_paths r2 = []
      \<and> already_present r2 = map (candidate_of h ?bd) (filter (accepted h ?bd) ls)"
    using foldl_import_line_all_seen [of ls h ?bd ?ex2 empty_report] seen unfolding r2 [symmetric]
    by (simp add: e)
  have sub: "set (added_paths r1) \<subseteq> set (map (candidate_of h ?bd) (filter (accepted h ?bd) ls))"
    using foldl_import_line_added_subset [of h ?ex ?bd empty_report ls] unfolding r1 [symmetric]
    by (simp add: e)
  have cnt: "length (added_paths r1) + length (already_present r1) = length (filter (accepted h ?bd) ls)"
    using foldl_import_line_accepted_count [of h ?ex ?bd empty_report ls] unfolding r1 [symmetric]
    by (simp add: e)
  from inv again sub cnt show ?thesis by simp
qed

theorem parse_file_list_no_duplicates_witness:
  "fst (parse_file_list sample_host [] ''/lists/files.lst'' world0) =
       Inr \<lparr>added_paths = [''/lists/a.txt''], already_present = [],
            not_found = [''missing.txt''], skipped_not_allowed = [''image.png'']\<rparr>
   \<and> fst (parse_file_list sample_host [''/lists/a.txt''] ''/lists/files.lst'' world0) =
       Inr \<lparr>added_paths = [], already_present = [''/lists/a.txt''],
            not_found = [''missing.txt''], skipped_not_allowed = [''image.png'']\<rparr>
   \<and> distinct (map (norm sample_host) [''/lists/a.txt''])"
proof -
  have p1: "fst (parse_file_list sample_host [] ''/lists/files.lst'' world0) =
       Inr \<lparr>added_paths = [''/lists/a.txt''], already_present = [],
            not_found = [''missing.txt''], skipped_not_allowed = [''image.png'']\<rparr>"
    by code_simp
  have p2: "fst (parse_file_list sample_host ([] @ added_paths \<lparr>added_paths = [''/lists/a.txt''], already_present = [],
            not_found = [''missing.txt''], skipped_not_allowed = [''image.png'']\<rparr>) ''/lists/files.lst'' world0) =
       Inr \<lparr>added_paths = [], already_present = [''/lists/a.txt''],
            not_found = [''missing.txt''], skipped_not_allowed = [''image.png'']\<rparr>"
    by code_simp
  show ?thesis
    using parse_file_list_no_duplicates [OF p1 p2] p1 p2 by simp
qed

section \<open>Properties of the natural sort\<close>











end
